theory Spec2Isabelle
  imports Main
begin

section \<open>Python values used by \<open>WrappedDocument\<close>\<close>

text \<open>
  The module \<^verbatim>\<open>textual/document/_wrapped_document.py\<close> raises \<^verbatim>\<open>ValueError\<close>
  itself (in \<^verbatim>\<open>offset_to_line_index\<close> and \<^verbatim>\<open>get_offsets\<close>); indexing a list out of
  range raises \<^verbatim>\<open>IndexError\<close>. The language-neutral specification calls the first
  one RangeError.
\<close>

datatype py_error = ValueError | IndexError

text \<open>A \<^verbatim>\<open>Location\<close> is a \<^verbatim>\<open>(row, column)\<close> tuple of Python integers.\<close>

type_synonym location = "int \<times> int"

subsection \<open>List indexing and slicing\<close>

text \<open>
  A slice bound of a sequence of length \<open>n\<close>: a negative bound counts from the end, and
  the result is clamped to \<open>0 .. n\<close>. Slicing never raises.
\<close>

definition py_clamp :: "nat \<Rightarrow> int \<Rightarrow> nat" where
  "py_clamp n i =
     (if i < 0 then (if i + int n < 0 then 0 else nat (i + int n))
      else if int n < i then n else nat i)"

text \<open>\<^verbatim>\<open>xs[a:b]\<close>\<close>

definition py_getslice :: "'a list \<Rightarrow> int \<Rightarrow> int \<Rightarrow> 'a list" where
  "py_getslice xs a b =
     (let lo = py_clamp (length xs) a; hi = py_clamp (length xs) b
      in take (hi - lo) (drop lo xs))"

text \<open>\<^verbatim>\<open>xs[a:b] = ys\<close>: an upper bound below the lower one is raised to it.\<close>

definition py_setslice :: "'a list \<Rightarrow> int \<Rightarrow> int \<Rightarrow> 'a list \<Rightarrow> 'a list" where
  "py_setslice xs a b ys =
     (let lo = py_clamp (length xs) a; hi = max lo (py_clamp (length xs) b)
      in take lo xs @ ys @ drop hi xs)"

text \<open>\<^verbatim>\<open>xs[i]\<close> for \<open>i\<close> counted by \<^verbatim>\<open>enumerate\<close> (never negative).\<close>

definition py_getitem :: "'a list \<Rightarrow> nat \<Rightarrow> py_error + 'a" where
  "py_getitem xs i = (if i < length xs then Inr (xs ! i) else Inl IndexError)"

section \<open>External collaborators\<close>

text \<open>
  \<^verbatim>\<open>rich._wrap.divide_line\<close>, the line splitter, is a parameter \<open>divide_line\<close> of
  every operation that calls it: a function of the line's text and the width, so that
  equal arguments give equal offsets.
\<close>

type_synonym splitter = "string \<Rightarrow> int \<Rightarrow> int list"

text \<open>
  Modelled from the spec: \<^verbatim>\<open>rich.text.Text.divide\<close> (with the \<^verbatim>\<open>Text\<close> constructor and
  \<^verbatim>\<open>.plain\<close>), which the \<^verbatim>\<open>lines\<close> property calls and which is not part of the
  source file. The specification's Materialization interface says: given a line's text
  and its offsets, produce the ordered sequence of substrings, the offsets being
  partition points. The substrings are the slices of the text between consecutive
  points of \<^verbatim>\<open>[0, *offsets, len(text)]\<close>.
\<close>

definition divide_text :: "string \<Rightarrow> int list \<Rightarrow> string list" where
  "divide_text text offsets =
     (let divide_offsets = 0 # offsets @ [int (length text)]
      in map (\<lambda>(start, end). py_getslice text start end)
           (zip divide_offsets (tl divide_offsets)))"

text \<open>
  An instance of the splitter for concrete evaluations: a break after every \<open>w\<close>
  characters. It meets the contract of the specification's external interface (ascending
  offsets strictly inside the line, none at width 0).
\<close>

definition chunk_split :: splitter where
  "chunk_split text w =
     (if w \<le> 0 then [] else filter (\<lambda>k. k mod w = 0) [1..int (length text) - 1])"

section \<open>\<open>WrappedDocument\<close>\<close>

text \<open>
  The object's fields. \<open>document\<close> is \<^verbatim>\<open>self._document.lines\<close>, the only capability
  of the document the class reads; the document is owned elsewhere, and an edit replaces
  this field.
\<close>

record wrapped_document =
  document :: "string list"
  width :: int
  wrap_offsets :: "int list list"
  offset_to_document_line :: "int list"

text \<open>\<^verbatim>\<open>__init__(document, width=0)\<close>\<close>

definition init :: "string list \<Rightarrow> int \<Rightarrow> wrapped_document" where
  "init doc w =
     \<lparr>document = doc, width = w, wrap_offsets = [], offset_to_document_line = []\<rparr>"

definition init_default :: "string list \<Rightarrow> wrapped_document" where
  "init_default doc = init doc 0"

text \<open>\<^verbatim>\<open>wrap()\<close>: the loop appends one entry per line of the document.\<close>

fun wrap_loop :: "splitter \<Rightarrow> int \<Rightarrow> int list list \<Rightarrow> string list \<Rightarrow> int list list" where
  "wrap_loop divide_line w new_wrap_offsets [] = new_wrap_offsets"
| "wrap_loop divide_line w new_wrap_offsets (line # rest) =
     wrap_loop divide_line w (new_wrap_offsets @ [divide_line line w]) rest"

definition wrap :: "splitter \<Rightarrow> wrapped_document \<Rightarrow> py_error + wrapped_document" where
  "wrap divide_line self =
     Inr (self\<lparr>wrap_offsets := wrap_loop divide_line (width self) [] (document self)\<rparr>)"

text \<open>The \<^verbatim>\<open>lines\<close> property: \<^verbatim>\<open>self._wrap_offsets[line_index]\<close> may raise.\<close>

fun lines_loop ::
  "int list list \<Rightarrow> nat \<Rightarrow> string list list \<Rightarrow> string list \<Rightarrow> py_error + string list list"
where
  "lines_loop table line_index wrapped_lines [] = Inr wrapped_lines"
| "lines_loop table line_index wrapped_lines (line # rest) =
     (case py_getitem table line_index of
        Inl e \<Rightarrow> Inl e
      | Inr offsets \<Rightarrow>
          lines_loop table (Suc line_index) (wrapped_lines @ [divide_text line offsets]) rest)"

definition lines :: "wrapped_document \<Rightarrow> py_error + string list list" where
  "lines self = lines_loop (wrap_offsets self) 0 [] (document self)"

text \<open>
  \<^verbatim>\<open>refresh_range(start, old_end, new_end)\<close>, called after the document was edited.
  It has no \<^verbatim>\<open>raise\<close> and reads and writes the lists by slices only.
\<close>

definition refresh_range ::
  "splitter \<Rightarrow> wrapped_document \<Rightarrow> location \<Rightarrow> location \<Rightarrow> location
     \<Rightarrow> py_error + wrapped_document"
where
  "refresh_range divide_line self start old_end new_end =
     (let start_row = fst start;
          end_row = fst new_end;
          new_lines = py_getslice (document self) start_row (end_row + 2);
          new_wrap_offsets = wrap_loop divide_line (width self) [] new_lines;
          old_end_row = fst old_end
      in Inr (self\<lparr>wrap_offsets :=
                py_setslice (wrap_offsets self) start_row old_end_row new_wrap_offsets\<rparr>))"

text \<open>
  \<^verbatim>\<open>offset_to_line_index(offset)\<close>: the scan over \<^verbatim>\<open>enumerate(self._wrap_offsets)\<close>;
  falling out of the loop reaches the final \<^verbatim>\<open>invalid_offset_error()\<close>.
\<close>

fun offset_scan :: "int \<Rightarrow> int \<Rightarrow> int \<Rightarrow> int list list \<Rightarrow> py_error + int" where
  "offset_scan offset current_offset line_index [] = Inl ValueError"
| "offset_scan offset current_offset line_index (line_offsets # rest) =
     (let wrapped_line_height = int (length line_offsets) + 1;
          current_offset = current_offset + wrapped_line_height
      in if current_offset > offset then Inr line_index
         else offset_scan offset current_offset (line_index + 1) rest)"

definition offset_to_line_index :: "wrapped_document \<Rightarrow> int \<Rightarrow> py_error + int" where
  "offset_to_line_index self offset =
     (if offset < 0 then Inl ValueError
      else offset_scan offset 0 0 (wrap_offsets self))"

text \<open>\<^verbatim>\<open>get_offsets(line_index)\<close>\<close>

definition get_offsets :: "wrapped_document \<Rightarrow> int \<Rightarrow> py_error + int list" where
  "get_offsets self line_index =
     (let out_of_bounds = line_index < 0 \<or> line_index \<ge> int (length (wrap_offsets self))
      in if out_of_bounds then Inl ValueError
         else Inr (wrap_offsets self ! nat line_index))"

section \<open>The specification's vocabulary\<close>

text \<open>
  The visual height of a line is the number of its offsets plus one;
  \<open>prefix_height table k\<close> is the height of the first \<open>k\<close> lines, so the specification's
  \<open>prefix(i)\<close>, the sum of \<open>h(0..i)\<close>, is \<open>prefix_height table (Suc i)\<close> and its
  \<open>prefix(i-1)\<close> is \<open>prefix_height table i\<close>.
\<close>

definition line_height :: "int list \<Rightarrow> int" where
  "line_height offsets = int (length offsets) + 1"

definition prefix_height :: "int list list \<Rightarrow> nat \<Rightarrow> int" where
  "prefix_height table k = sum_list (map line_height (take k table))"

definition total_height :: "int list list \<Rightarrow> int" where
  "total_height table = sum_list (map line_height table)"

text \<open>Offsets that are partition points: ascending and not negative.\<close>

definition partition_points :: "int list \<Rightarrow> bool" where
  "partition_points offsets = (sorted offsets \<and> list_all (\<lambda>k. 0 \<le> k) offsets)"

section \<open>Helper lemmas\<close>

lemma wrap_loop_map:
  "wrap_loop divide_line w acc ls = acc @ map (\<lambda>line. divide_line line w) ls"
  by (induction ls arbitrary: acc) simp_all

lemma py_clamp_nonneg: "0 \<le> i \<Longrightarrow> py_clamp n i = min n (nat i)"
  by (auto simp: py_clamp_def)

lemma prefix_height_0: "prefix_height tbl 0 = 0"
  by (simp add: prefix_height_def)

lemma prefix_height_Cons_Suc:
  "prefix_height (e # tbl) (Suc k) = line_height e + prefix_height tbl k"
  by (simp add: prefix_height_def)

lemma total_height_Cons: "total_height (e # tbl) = line_height e + total_height tbl"
  by (simp add: total_height_def)

lemma line_height_pos: "0 < line_height e"
  by (simp add: line_height_def)

lemma total_height_nonneg: "0 \<le> total_height tbl"
  by (induction tbl) (simp_all add: total_height_def line_height_def)

lemma prefix_height_all: "length tbl \<le> k \<Longrightarrow> prefix_height tbl k = total_height tbl"
  by (simp add: prefix_height_def total_height_def)

lemma prefix_height_Suc:
  "k < length tbl \<Longrightarrow> prefix_height tbl (Suc k) = prefix_height tbl k + line_height (tbl ! k)"
  by (simp add: prefix_height_def take_Suc_conv_app_nth)

lemma prefix_height_mono: "k \<le> m \<Longrightarrow> prefix_height tbl k \<le> prefix_height tbl m"
proof (induction m)
  case 0
  then show ?case by simp
next
  case (Suc m)
  show ?case
  proof (cases "k = Suc m")
    case True
    then show ?thesis by simp
  next
    case False
    with Suc have le: "prefix_height tbl k \<le> prefix_height tbl m" by simp
    show ?thesis
    proof (cases "m < length tbl")
      case True
      with le line_height_pos [of "tbl ! m"] show ?thesis
        by (simp add: prefix_height_Suc)
    next
      case False
      then show ?thesis using le by (simp add: prefix_height_all)
    qed
  qed
qed

lemma offset_scan_found:
  "cur \<le> offset \<Longrightarrow> offset < cur + total_height tbl \<Longrightarrow>
   \<exists>i<length tbl. offset_scan offset cur idx tbl = Inr (idx + int i)
      \<and> cur + prefix_height tbl i \<le> offset
      \<and> offset < cur + prefix_height tbl (Suc i)"
proof (induction tbl arbitrary: cur idx)
  case Nil
  then show ?case by (simp add: total_height_def)
next
  case (Cons e tbl)
  show ?case
  proof (cases "offset < cur + line_height e")
    case True
    with Cons.prems have
      "offset_scan offset cur idx (e # tbl) = Inr (idx + int 0)
       \<and> cur + prefix_height (e # tbl) 0 \<le> offset
       \<and> offset < cur + prefix_height (e # tbl) (Suc 0)"
      by (simp add: line_height_def prefix_height_def)
    then show ?thesis by blast
  next
    case False
    then have le: "cur + line_height e \<le> offset" by simp
    from Cons.prems have lt: "offset < (cur + line_height e) + total_height tbl"
      by (simp add: total_height_Cons)
    from Cons.IH [OF le lt, of "idx + 1"] obtain i where i:
      "i < length tbl"
      "offset_scan offset (cur + line_height e) (idx + 1) tbl = Inr (idx + 1 + int i)"
      "cur + line_height e + prefix_height tbl i \<le> offset"
      "offset < cur + line_height e + prefix_height tbl (Suc i)"
      by blast
    from False i have
      "Suc i < length (e # tbl)
       \<and> offset_scan offset cur idx (e # tbl) = Inr (idx + int (Suc i))
       \<and> cur + prefix_height (e # tbl) (Suc i) \<le> offset
       \<and> offset < cur + prefix_height (e # tbl) (Suc (Suc i))"
      by (simp add: prefix_height_Cons_Suc line_height_def)
    then show ?thesis by blast
  qed
qed

lemma offset_scan_beyond:
  "cur + total_height tbl \<le> offset \<Longrightarrow> offset_scan offset cur idx tbl = Inl ValueError"
proof (induction tbl arbitrary: cur idx)
  case Nil
  then show ?case by simp
next
  case (Cons e tbl)
  from Cons.prems line_height_pos [of e] total_height_Cons [of e tbl]
  have "cur + line_height e + total_height tbl \<le> offset" by simp
  from Cons.IH [OF this, of "idx + 1"] Cons.prems total_height_nonneg [of tbl] show ?case
    by (simp add: total_height_Cons line_height_def)
qed

lemma prefix_height_unique:
  assumes "prefix_height tbl i \<le> offset" "offset < prefix_height tbl (Suc i)"
    and "prefix_height tbl j \<le> offset" "offset < prefix_height tbl (Suc j)"
  shows "i = j"
proof (rule ccontr)
  assume "i \<noteq> j"
  then consider "Suc i \<le> j" | "Suc j \<le> i" by linarith
  then show False
  proof cases
    case 1
    from prefix_height_mono [OF 1, of tbl] assms show False by simp
  next
    case 2
    from prefix_height_mono [OF 2, of tbl] assms show False by simp
  qed
qed

lemma upto_as_upt: "0 \<le> a \<Longrightarrow> [a..b] = map int [nat a..<nat (b + 1)]"
proof (induction a b rule: upto.induct)
  case (1 a b)
  show ?case
  proof (cases "a \<le> b")
    case True
    with 1 have ih: "[a + 1..b] = map int [nat (a + 1)..<nat (b + 1)]" by simp
    from True "1.prems" have lt: "nat a < nat (b + 1)" by simp
    from "1.prems" have suc: "Suc (nat a) = nat (a + 1)" by simp
    from True have "[a..b] = a # [a + 1..b]" by (simp add: upto_rec1)
    also from lt suc "1.prems" ih have "\<dots> = map int [nat a..<nat (b + 1)]"
      by (simp add: upt_conv_Cons)
    finally show ?thesis .
  next
    case False
    with "1.prems" show ?thesis by simp
  qed
qed

lemma map_nth_upt_take_drop:
  "j \<le> length xs \<Longrightarrow> map ((!) xs) [i..<j] = take (j - i) (drop i xs)"
  by (rule nth_equalityI) auto

lemma take_min_length: "take (min (length xs) k) xs = take k xs"
  by (cases "k \<le> length xs") (simp_all add: min_def)

lemma drop_min_length: "drop (min (length xs) k) xs = drop k xs"
  by (cases "k \<le> length xs") (simp_all add: min_def)

lemma py_getslice_nonneg:
  "0 \<le> a \<Longrightarrow> 0 \<le> b \<Longrightarrow>
   py_getslice xs a b =
     take (min (length xs) (nat b) - min (length xs) (nat a)) (drop (min (length xs) (nat a)) xs)"
  by (simp add: py_getslice_def py_clamp_nonneg Let_def)

lemma py_setslice_nonneg:
  "0 \<le> a \<Longrightarrow> 0 \<le> b \<Longrightarrow>
   py_setslice xs a b ys = take (nat a) xs @ ys @ drop (nat (max a b)) xs"
proof -
  assume a: "0 \<le> a" and b: "0 \<le> b"
  have "max (min (length xs) (nat a)) (min (length xs) (nat b))
          = min (length xs) (nat (max a b))"
    using a b by (cases "a \<le> b") (auto simp: max_def min_def)
  with a b show ?thesis
    by (simp add: py_setslice_def py_clamp_nonneg take_min_length drop_min_length Let_def)
qed

lemma py_getslice_rows:
  assumes "0 \<le> a" "0 \<le> b"
  shows "py_getslice xs a (b + 2) =
     map (\<lambda>row. xs ! nat row) [a..min (b + 1) (int (length xs) - 1)]"
proof -
  let ?m = "min (b + 1) (int (length xs) - 1)"
  have up: "nat (?m + 1) = min (length xs) (nat (b + 2))"
    using assms by (cases "b + 1 < int (length xs)") (auto simp: min_def)
  have "map (\<lambda>row. xs ! nat row) [a..?m] = map ((!) xs) [nat a..<nat (?m + 1)]"
    using assms by (simp add: upto_as_upt o_def)
  also have "\<dots> = take (nat (?m + 1) - nat a) (drop (nat a) xs)"
    by (rule map_nth_upt_take_drop) (simp add: up)
  also have "\<dots> = py_getslice xs a (b + 2)"
  proof (cases "nat a \<le> length xs")
    case True
    with assms up show ?thesis by (simp add: py_getslice_nonneg min_def)
  next
    case False
    with assms up show ?thesis by (simp add: py_getslice_nonneg min_def)
  qed
  finally show ?thesis by simp
qed

lemma slice_then_rest:
  assumes "0 \<le> a" "a \<le> b"
  shows "py_getslice xs a b @ drop (nat b) xs = drop (nat a) xs"
proof (cases "nat b \<le> length xs")
  case True
  with assms have "py_getslice xs a b = take (nat b - nat a) (drop (nat a) xs)"
    by (simp add: py_getslice_def py_clamp_nonneg Let_def min_def)
  moreover from assms have "drop (nat b) xs = drop (nat b - nat a) (drop (nat a) xs)"
    by simp
  ultimately show ?thesis by (simp only: append_take_drop_id)
next
  case False
  with assms show ?thesis
    by (simp add: py_getslice_def py_clamp_nonneg Let_def min_def)
qed

lemma slice_to_end: "0 \<le> a \<Longrightarrow> py_getslice xs a (int (length xs)) = drop (nat a) xs"
  by (simp add: py_getslice_def py_clamp_nonneg Let_def min_def)

lemma slices_concat:
  "0 \<le> a \<Longrightarrow> sorted (a # offs) \<Longrightarrow>
   concat (map (\<lambda>(start, end). py_getslice text start end)
      (zip (a # offs @ [int (length text)]) (offs @ [int (length text)])))
   = drop (nat a) text"
proof (induction offs arbitrary: a)
  case Nil
  then show ?case by (simp add: slice_to_end)
next
  case (Cons b offs)
  from Cons.prems have ab: "a \<le> b" and b0: "0 \<le> b" and sb: "sorted (b # offs)"
    by auto
  from Cons.IH [OF b0 sb] Cons.prems(1) ab show ?case
    by (simp add: slice_then_rest)
qed

lemma concat_divide_text:
  assumes "partition_points offsets"
  shows "concat (divide_text text offsets) = text"
proof -
  from assms have "sorted (0 # offsets)"
    by (auto simp: partition_points_def list_all_iff)
  then have "concat (map (\<lambda>(start, end). py_getslice text start end)
      (zip (0 # offsets @ [int (length text)]) (offsets @ [int (length text)])))
   = drop (nat 0) text"
    by (intro slices_concat) simp_all
  then show ?thesis
    by (simp add: divide_text_def)
qed

lemma lines_loop_covered:
  "line_index + length ls \<le> length table \<Longrightarrow>
   lines_loop table line_index acc ls =
     Inr (acc @ map (\<lambda>(line, offsets). divide_text line offsets) (zip ls (drop line_index table)))"
proof (induction ls arbitrary: line_index acc)
  case Nil
  then show ?case by simp
next
  case (Cons line ls)
  then have lt: "line_index < length table"
    and rest: "Suc line_index + length ls \<le> length table" by simp_all
  from lt have "drop line_index table = table ! line_index # drop (Suc line_index) table"
    by (simp add: Cons_nth_drop_Suc)
  with Cons.IH [OF rest] lt show ?case
    by (simp add: py_getitem_def)
qed

lemma lines_loop_short:
  "ls \<noteq> [] \<Longrightarrow> length table < line_index + length ls \<Longrightarrow>
   lines_loop table line_index acc ls = Inl IndexError"
proof (induction ls arbitrary: line_index acc)
  case Nil
  then show ?case by simp
next
  case (Cons line ls)
  show ?case
  proof (cases "line_index < length table")
    case True
    with Cons.prems have ne: "ls \<noteq> []"
      and "length table < Suc line_index + length ls" by auto
    from Cons.IH [OF this] True show ?thesis by (simp add: py_getitem_def)
  next
    case False
    then show ?thesis by (simp add: py_getitem_def)
  qed
qed

lemma chunk_split_partition_points: "partition_points (chunk_split text w)"
  by (auto simp: partition_points_def chunk_split_def list_all_iff sorted_wrt_filter)

lemma wrap_partition_points:
  assumes "\<And>text w. partition_points (divide_line text w)"
    and "wrap divide_line self = Inr s'"
  shows "list_all partition_points (wrap_offsets s')
     \<and> length (wrap_offsets s') = length (document s')"
  using assms by (auto simp: wrap_def wrap_loop_map list_all_iff)

lemma py_setslice_set: "set (py_setslice xs a b ys) \<subseteq> set xs \<union> set ys"
  by (auto simp: py_setslice_def Let_def dest: in_set_takeD in_set_dropD)

lemma refresh_range_partition_points:
  assumes "\<And>text w. partition_points (divide_line text w)"
    and "list_all partition_points (wrap_offsets self)"
    and "refresh_range divide_line self start old_end new_end = Inr s'"
  shows "list_all partition_points (wrap_offsets s')"
proof -
  from assms(3) have "wrap_offsets s' =
      py_setslice (wrap_offsets self) (fst start) (fst old_end)
        (wrap_loop divide_line (width self) []
           (py_getslice (document self) (fst start) (fst new_end + 2)))"
    by (auto simp: refresh_range_def Let_def)
  then have "set (wrap_offsets s') \<subseteq> set (wrap_offsets self)
      \<union> set (wrap_loop divide_line (width self) []
           (py_getslice (document self) (fst start) (fst new_end + 2)))"
    by (simp only: py_setslice_set)
  with assms(1,2) show ?thesis
    by (auto simp: list_all_iff wrap_loop_map)
qed

lemma refresh_range_single_row_length:
  assumes "0 \<le> r" and "r < int (length (document self))"
    and "length (wrap_offsets self) = length (document self)"
    and "refresh_range divide_line self (r, c1) (r, c2) (r, c3) = Inr s'"
  shows "length (wrap_offsets s') =
     length (document self) + min 2 (length (document self) - nat r)"
proof -
  from assms(4) have "wrap_offsets s' =
      py_setslice (wrap_offsets self) r r
        (wrap_loop divide_line (width self) [] (py_getslice (document self) r (r + 2)))"
    by (auto simp: refresh_range_def Let_def)
  with assms(1,2,3) show ?thesis
    by (simp add: wrap_loop_map py_setslice_nonneg py_getslice_nonneg)
qed

section \<open>Claims\<close>

subsection \<open>The table and the document's line count\<close>

text \<open>
  C1. The table is meant to hold one entry per logical line after every \<open>wrap()\<close> and
  every \<open>refresh_range()\<close>. \<open>wrap()\<close> does so (\<open>wrap_partition_points\<close>), but
  \<open>refresh_range\<close> reads the rows \<open>start_row .. end_row + 1\<close> and writes them over the
  rows \<open>start_row ..< old_end_row\<close>. For the edit that splits line 0 of
  \<open>["hello world", "foo"]\<close> at column 5, at width 5, the call
  \<open>refresh_range((0,5), (0,5), (1,0))\<close> inserts three entries and removes none: the
  table has five entries for a document of three lines.
\<close>

theorem refresh_range_line_split_length:
  "wrap chunk_split (init [''hello world'', ''foo''] 5) =
     Inr \<lparr>document = [''hello world'', ''foo''], width = 5,
          wrap_offsets = [[5, 10], []], offset_to_document_line = []\<rparr>
   \<and> refresh_range chunk_split
       \<lparr>document = [''hello'', '' world'', ''foo''], width = 5,
        wrap_offsets = [[5, 10], []], offset_to_document_line = []\<rparr>
       (0, 5) (0, 5) (1, 0) =
     Inr \<lparr>document = [''hello'', '' world'', ''foo''], width = 5,
          wrap_offsets = [[], [5], [], [5, 10], []], offset_to_document_line = []\<rparr>
   \<and> length [[], [5], [], [5, 10], [] :: int list]
       \<noteq> length [''hello'', '' world'', ''foo'']"
  by code_simp

text \<open>
  C2. After an edit inside one row that keeps the row count, the entries of the other
  rows are meant to keep their values. For \<open>["hello world", "foo", "bar"]\<close> at width 5,
  replacing one character of row 0 (columns 6 to 7) and calling
  \<open>refresh_range((0,6), (0,7), (0,7))\<close> inserts the entries of rows 0 and 1 in front
  of the old table: the entry at index 2, the row \<open>"bar"\<close>, was \<open>[]\<close> and is
  \<open>[5, 10]\<close> afterwards.
\<close>

theorem refresh_range_single_row_edit_moves_entries:
  "wrap chunk_split (init [''hello world'', ''foo'', ''bar''] 5) =
     Inr \<lparr>document = [''hello world'', ''foo'', ''bar''], width = 5,
          wrap_offsets = [[5, 10], [], []], offset_to_document_line = []\<rparr>
   \<and> get_offsets
       \<lparr>document = [''hello world'', ''foo'', ''bar''], width = 5,
        wrap_offsets = [[5, 10], [], []], offset_to_document_line = []\<rparr> 2 = Inr []
   \<and> refresh_range chunk_split
       \<lparr>document = [''hello World'', ''foo'', ''bar''], width = 5,
        wrap_offsets = [[5, 10], [], []], offset_to_document_line = []\<rparr>
       (0, 6) (0, 7) (0, 7) =
     Inr \<lparr>document = [''hello World'', ''foo'', ''bar''], width = 5,
          wrap_offsets = [[5, 10], [], [5, 10], [], []], offset_to_document_line = []\<rparr>
   \<and> get_offsets
       \<lparr>document = [''hello World'', ''foo'', ''bar''], width = 5,
        wrap_offsets = [[5, 10], [], [5, 10], [], []], offset_to_document_line = []\<rparr> 2
     = Inr [5, 10]"
  by code_simp

subsection \<open>What \<open>refresh_range\<close> computes\<close>

text \<open>
  C3. For rows that are not negative, \<open>refresh_range(start, old_end, new_end)\<close>
  recomputes the rows of the inclusive range from \<open>start.row\<close> to
  \<open>min(new_end.row + 1, line_count - 1)\<close>, one entry per row, by the splitter on the
  current line at the current width, and puts these entries in place of the table's
  entries \<open>start.row ..< old_end.row\<close>: the entries before \<open>start.row\<close> and from
  \<open>old_end.row\<close> on are kept (from \<open>start.row\<close> on when \<open>old_end.row\<close> is smaller,
  the replaced range being empty then).
\<close>

theorem refresh_range_recomputes:
  assumes "0 \<le> fst start" "0 \<le> fst old_end" "0 \<le> fst new_end"
  shows "refresh_range divide_line self start old_end new_end =
     Inr (self\<lparr>wrap_offsets :=
        take (nat (fst start)) (wrap_offsets self)
        @ map (\<lambda>row. divide_line (document self ! nat row) (width self))
              [fst start..min (fst new_end + 1) (int (length (document self)) - 1)]
        @ drop (nat (max (fst start) (fst old_end))) (wrap_offsets self)\<rparr>)"
  using assms
  by (simp add: refresh_range_def Let_def wrap_loop_map py_setslice_nonneg
      py_getslice_rows o_def)

theorem refresh_range_recomputes_witness:
  "refresh_range chunk_split
     \<lparr>document = [''hello'', ''world!''], width = 5,
      wrap_offsets = [[], []], offset_to_document_line = []\<rparr>
     (1, 5) (1, 5) (1, 6) =
   Inr \<lparr>document = [''hello'', ''world!''], width = 5,
        wrap_offsets = [[], [5], []], offset_to_document_line = []\<rparr>"
proof -
  let ?s = "\<lparr>document = [''hello'', ''world!''], width = 5,
      wrap_offsets = [[], []], offset_to_document_line = []\<rparr>"
  have "refresh_range chunk_split ?s (1, 5) (1, 5) (1, 6) =
     Inr (?s\<lparr>wrap_offsets :=
        take (nat (fst (1 :: int, 5 :: int))) (wrap_offsets ?s)
        @ map (\<lambda>row. chunk_split (document ?s ! nat row) (width ?s))
              [fst (1 :: int, 5 :: int)..
               min (fst (1 :: int, 6 :: int) + 1) (int (length (document ?s)) - 1)]
        @ drop (nat (max (fst (1 :: int, 5 :: int)) (fst (1 :: int, 5 :: int))))
            (wrap_offsets ?s)\<rparr>)"
    by (rule refresh_range_recomputes) simp_all
  also have "\<dots> = Inr \<lparr>document = [''hello'', ''world!''], width = 5,
        wrap_offsets = [[], [5], []], offset_to_document_line = []\<rparr>"
    by code_simp
  finally show ?thesis .
qed

text \<open>
  C9. \<open>refresh_range\<close> checks no bound. For any rows that are not negative, also rows
  at or beyond the document's line count or the table's length, the call returns a
  state: the document and the width are unchanged, the rows read and the range replaced
  are clamped to the lengths of the document and of the table, and rows beyond both
  leave the state as it was.
\<close>

theorem refresh_range_never_raises:
  assumes "0 \<le> fst start" "0 \<le> fst old_end" "0 \<le> fst new_end"
  shows "\<exists>s'. refresh_range divide_line self start old_end new_end = Inr s'
     \<and> document s' = document self \<and> width s' = width self
     \<and> wrap_offsets s' =
         take (min (length (wrap_offsets self)) (nat (fst start))) (wrap_offsets self)
         @ map (\<lambda>line. divide_line line (width self))
             (take (min (length (document self)) (nat (fst new_end + 2))
                     - min (length (document self)) (nat (fst start)))
                (drop (min (length (document self)) (nat (fst start))) (document self)))
         @ drop (min (length (wrap_offsets self)) (nat (max (fst start) (fst old_end))))
             (wrap_offsets self)
     \<and> (int (length (document self)) \<le> fst start
          \<and> int (length (wrap_offsets self)) \<le> fst start \<longrightarrow> s' = self)"
proof -
  define s' where "s' = self\<lparr>wrap_offsets :=
      py_setslice (wrap_offsets self) (fst start) (fst old_end)
        (wrap_loop divide_line (width self) []
           (py_getslice (document self) (fst start) (fst new_end + 2)))\<rparr>"
  have ret: "refresh_range divide_line self start old_end new_end = Inr s'"
    by (simp add: refresh_range_def Let_def s'_def)
  have fields: "document s' = document self \<and> width s' = width self"
    by (simp add: s'_def)
  have tbl: "wrap_offsets s' =
         take (min (length (wrap_offsets self)) (nat (fst start))) (wrap_offsets self)
         @ map (\<lambda>line. divide_line line (width self))
             (take (min (length (document self)) (nat (fst new_end + 2))
                     - min (length (document self)) (nat (fst start)))
                (drop (min (length (document self)) (nat (fst start))) (document self)))
         @ drop (min (length (wrap_offsets self)) (nat (max (fst start) (fst old_end))))
             (wrap_offsets self)"
    using assms
    by (simp add: s'_def wrap_loop_map py_setslice_nonneg py_getslice_nonneg
        take_min_length drop_min_length)
  have same: "int (length (document self)) \<le> fst start
          \<and> int (length (wrap_offsets self)) \<le> fst start \<longrightarrow> s' = self"
  proof
    assume far: "int (length (document self)) \<le> fst start
          \<and> int (length (wrap_offsets self)) \<le> fst start"
    then have d: "length (document self) \<le> nat (fst start)"
      and t: "length (wrap_offsets self) \<le> nat (fst start)"
      and t': "length (wrap_offsets self) \<le> nat (max (fst start) (fst old_end))"
      by linarith+
    from d have "drop (min (length (document self)) (nat (fst start))) (document self) = []"
      by simp
    with assms t t' have "wrap_offsets s' = wrap_offsets self"
      by (simp add: s'_def wrap_loop_map py_setslice_nonneg py_getslice_nonneg)
    then show "s' = self" by (simp add: s'_def)
  qed
  from ret fields tbl same show ?thesis by blast
qed

theorem refresh_range_never_raises_witness:
  "refresh_range chunk_split
     \<lparr>document = [''hello'', '' world'', ''foo''], width = 5,
      wrap_offsets = [[5, 10], []], offset_to_document_line = []\<rparr>
     (7, 5) (9, 5) (8, 0) =
   Inr \<lparr>document = [''hello'', '' world'', ''foo''], width = 5,
        wrap_offsets = [[5, 10], []], offset_to_document_line = []\<rparr>"
proof -
  let ?s = "\<lparr>document = [''hello'', '' world'', ''foo''], width = 5,
      wrap_offsets = [[5, 10], []], offset_to_document_line = []\<rparr>"
  have "0 \<le> fst (7 :: int, 5 :: int)" "0 \<le> fst (9 :: int, 5 :: int)"
    "0 \<le> fst (8 :: int, 0 :: int)" by simp_all
  from refresh_range_never_raises [OF this, of chunk_split ?s]
  obtain s' where "refresh_range chunk_split ?s (7, 5) (9, 5) (8, 0) = Inr s'"
    and "int (length (document ?s)) \<le> fst (7 :: int, 5 :: int)
          \<and> int (length (wrap_offsets ?s)) \<le> fst (7 :: int, 5 :: int) \<longrightarrow> s' = ?s"
    by blast
  then show ?thesis by simp
qed

subsection \<open>Queries\<close>

text \<open>
  C4. For an offset with \<open>0 \<le> offset < total height\<close>, \<open>offset_to_line_index\<close>
  returns a line index \<open>i\<close> of the table with
  \<open>prefix(i-1) \<le> offset < prefix(i)\<close>; it is the smallest index whose prefix sum
  exceeds the offset, and the only index between whose prefix sums the offset lies.
\<close>

theorem offset_to_line_index_smallest:
  assumes "0 \<le> offset" and "offset < total_height (wrap_offsets self)"
  shows "\<exists>i<length (wrap_offsets self).
           offset_to_line_index self offset = Inr (int i)
           \<and> prefix_height (wrap_offsets self) i \<le> offset
           \<and> offset < prefix_height (wrap_offsets self) (Suc i)
           \<and> (\<forall>j<i. prefix_height (wrap_offsets self) (Suc j) \<le> offset)
           \<and> (\<forall>j. prefix_height (wrap_offsets self) j \<le> offset
                  \<and> offset < prefix_height (wrap_offsets self) (Suc j) \<longrightarrow> j = i)"
proof -
  from assms offset_scan_found [of 0 offset "wrap_offsets self" 0]
  obtain i where i: "i < length (wrap_offsets self)"
    "offset_scan offset 0 0 (wrap_offsets self) = Inr (int i)"
    "prefix_height (wrap_offsets self) i \<le> offset"
    "offset < prefix_height (wrap_offsets self) (Suc i)"
    by auto
  have small: "\<forall>j<i. prefix_height (wrap_offsets self) (Suc j) \<le> offset"
  proof (intro allI impI)
    fix j assume "j < i"
    then have "Suc j \<le> i" by simp
    from prefix_height_mono [OF this, of "wrap_offsets self"] i(3)
    show "prefix_height (wrap_offsets self) (Suc j) \<le> offset" by simp
  qed
  have uniq: "\<forall>j. prefix_height (wrap_offsets self) j \<le> offset
                  \<and> offset < prefix_height (wrap_offsets self) (Suc j) \<longrightarrow> j = i"
    using prefix_height_unique [OF _ _ i(3) i(4)] by blast
  from assms(1) i(2) have "offset_to_line_index self offset = Inr (int i)"
    by (simp add: offset_to_line_index_def)
  with i small uniq show ?thesis by blast
qed

theorem offset_to_line_index_smallest_witness:
  "(0 :: int) \<le> 3 \<and> 3 < total_height [[5, 10], []]
   \<and> offset_to_line_index
        \<lparr>document = [''hello world'', ''foo''], width = 5,
         wrap_offsets = [[5, 10], []], offset_to_document_line = []\<rparr> 3 = Inr 1
   \<and> prefix_height [[5, 10], []] 1 \<le> 3 \<and> 3 < prefix_height [[5, 10], []] 2"
proof -
  let ?s = "\<lparr>document = [''hello world'', ''foo''], width = 5,
         wrap_offsets = [[5, 10], []], offset_to_document_line = []\<rparr>"
  have h: "(0 :: int) \<le> 3" "3 < total_height (wrap_offsets ?s)"
    by (simp_all add: total_height_def line_height_def)
  from offset_to_line_index_smallest [OF h]
  obtain i where "offset_to_line_index ?s 3 = Inr (int i)"
    and "prefix_height (wrap_offsets ?s) i \<le> 3"
    and "3 < prefix_height (wrap_offsets ?s) (Suc i)"
    by blast
  moreover have "offset_to_line_index ?s 3 = Inr 1"
    by (simp add: offset_to_line_index_def)
  moreover have "prefix_height [[5, 10], []] 1 \<le> 3 \<and> 3 < prefix_height [[5, 10], []] 2"
    by code_simp
  ultimately show ?thesis using h by simp
qed

text \<open>
  C5. \<open>offset_to_line_index\<close> fails, with \<open>ValueError\<close> (the specification's
  RangeError), exactly when the offset is negative or at or beyond the total visual
  height; in all other cases it returns an index. In particular it fails at \<open>-1\<close> and at
  the total height: the offset is not clamped to a valid index.
\<close>

theorem offset_to_line_index_fails_iff:
  "(offset_to_line_index self offset = Inl ValueError
      \<longleftrightarrow> offset < 0 \<or> total_height (wrap_offsets self) \<le> offset)
   \<and> (isl (offset_to_line_index self offset)
      \<longleftrightarrow> offset < 0 \<or> total_height (wrap_offsets self) \<le> offset)
   \<and> offset_to_line_index self (- 1) = Inl ValueError
   \<and> offset_to_line_index self (total_height (wrap_offsets self)) = Inl ValueError"
proof -
  have neg: "offset < 0 \<Longrightarrow> offset_to_line_index self offset = Inl ValueError" for offset
    by (simp add: offset_to_line_index_def)
  have beyond: "total_height (wrap_offsets self) \<le> offset
      \<Longrightarrow> offset_to_line_index self offset = Inl ValueError" for offset
    using offset_scan_beyond [of 0 "wrap_offsets self" offset 0]
    by (simp add: offset_to_line_index_def)
  have inside: "\<not> isl (offset_to_line_index self offset)"
    if "0 \<le> offset" "offset < total_height (wrap_offsets self)"
    using offset_scan_found [of 0 offset "wrap_offsets self" 0] that
    by (auto simp: offset_to_line_index_def)
  have a: "offset_to_line_index self offset = Inl ValueError
      \<longleftrightarrow> offset < 0 \<or> total_height (wrap_offsets self) \<le> offset"
    using neg [of offset] beyond [of offset] inside by fastforce
  have b: "isl (offset_to_line_index self offset)
      \<longleftrightarrow> offset < 0 \<or> total_height (wrap_offsets self) \<le> offset"
    using neg [of offset] beyond [of offset] inside by fastforce
  from a b neg [of "- 1"] beyond [of "total_height (wrap_offsets self)"]
  show ?thesis by simp
qed

text \<open>
  C6. \<open>get_offsets(line_index)\<close> returns the stored entry of the line when
  \<open>0 \<le> line_index < table length\<close>, and fails with \<open>ValueError\<close> (the
  specification's RangeError) exactly when the index is outside this range; in
  particular at \<open>-1\<close> and at the table's length.
\<close>

theorem get_offsets_bounds:
  "(get_offsets self line_index = Inl ValueError
      \<longleftrightarrow> line_index < 0 \<or> int (length (wrap_offsets self)) \<le> line_index)
   \<and> (0 \<le> line_index \<and> line_index < int (length (wrap_offsets self))
      \<longrightarrow> get_offsets self line_index = Inr (wrap_offsets self ! nat line_index))
   \<and> get_offsets self (- 1) = Inl ValueError
   \<and> get_offsets self (int (length (wrap_offsets self))) = Inl ValueError"
  by (auto simp: get_offsets_def)

theorem get_offsets_bounds_witness:
  "get_offsets
     \<lparr>document = [''hello world'', ''foo''], width = 5,
      wrap_offsets = [[5, 10], []], offset_to_document_line = []\<rparr> 0 = Inr [5, 10]
   \<and> get_offsets
     \<lparr>document = [''hello world'', ''foo''], width = 5,
      wrap_offsets = [[5, 10], []], offset_to_document_line = []\<rparr> 2 = Inl ValueError"
  using get_offsets_bounds
    [of "\<lparr>document = [''hello world'', ''foo''], width = 5,
      wrap_offsets = [[5, 10], []], offset_to_document_line = []\<rparr>" 0]
    get_offsets_bounds
    [of "\<lparr>document = [''hello world'', ''foo''], width = 5,
      wrap_offsets = [[5, 10], []], offset_to_document_line = []\<rparr>" 2]
  by simp

subsection \<open>Full wrap\<close>

text \<open>
  C7. \<open>wrap()\<close> is idempotent: with the splitter a function of its arguments, the
  document and the width unchanged, a second call returns the very state the first call
  returned, so repeated calls leave the table of the first call.
\<close>

theorem wrap_idempotent:
  "\<exists>s1. wrap divide_line self = Inr s1 \<and> wrap divide_line s1 = Inr s1"
  by (simp add: wrap_def)

subsection \<open>The \<open>lines\<close> property\<close>

text \<open>
  C8. Materialization is a partition when every logical line of the document has a
  stored entry (the table is at least as long as the document) and the stored offsets
  are partition points (ascending and not negative, as the splitter's contract gives
  them): the \<open>lines\<close> property then returns, for every line, the sequence of pieces
  cut at that line's offsets, and the concatenation of the pieces is the line's text.
  A line with a stored entry is not enough: the property reads the entry of every
  line of the document and fails as a whole at the first line without one.
\<close>

theorem lines_partition:
  assumes "length (document self) \<le> length (wrap_offsets self)"
    and "list_all partition_points (wrap_offsets self)"
  shows "\<exists>ws. lines self = Inr ws \<and> length ws = length (document self)
     \<and> (\<forall>i<length (document self).
            ws ! i = divide_text (document self ! i) (wrap_offsets self ! i)
            \<and> concat (ws ! i) = document self ! i)"
proof -
  let ?ws = "map (\<lambda>(line, offsets). divide_text line offsets)
               (zip (document self) (wrap_offsets self))"
  from assms(1) have ret: "lines self = Inr ?ws"
    by (simp add: lines_def lines_loop_covered)
  from assms(1) have len: "length ?ws = length (document self)" by simp
  have each: "?ws ! i = divide_text (document self ! i) (wrap_offsets self ! i)
            \<and> concat (?ws ! i) = document self ! i" if "i < length (document self)" for i
  proof -
    from that assms(1) have "i < length (wrap_offsets self)" by simp
    with assms(2) have "partition_points (wrap_offsets self ! i)"
      by (simp add: list_all_length)
    with that assms(1) show ?thesis by (simp add: concat_divide_text)
  qed
  from ret len each show ?thesis by blast
qed

theorem lines_partition_witness:
  "lines
     \<lparr>document = [''hello world'', ''foo''], width = 5,
      wrap_offsets = [[5, 10], []], offset_to_document_line = []\<rparr>
     = Inr [[''hello'', '' worl'', ''d''], [''foo'']]
   \<and> concat [''hello'', '' worl'', ''d''] = ''hello world''"
proof -
  let ?s = "\<lparr>document = [''hello world'', ''foo''], width = 5,
      wrap_offsets = [[5, 10], []], offset_to_document_line = []\<rparr>"
  have "length (document ?s) \<le> length (wrap_offsets ?s)" by simp
  moreover have "list_all partition_points (wrap_offsets ?s)"
    by (simp add: partition_points_def)
  ultimately obtain ws where "lines ?s = Inr ws"
    and "\<forall>i<length (document ?s). concat (ws ! i) = document ?s ! i"
    using lines_partition [of ?s] by blast
  moreover have "lines ?s = Inr [[''hello'', '' worl'', ''d''], [''foo'']]"
    by code_simp
  ultimately show ?thesis by simp
qed

theorem lines_partial_table_counterexample:
  "get_offsets
     \<lparr>document = [''hello world'', ''foo''], width = 5,
      wrap_offsets = [[5, 10]], offset_to_document_line = []\<rparr> 0 = Inr [5, 10]
   \<and> lines
     \<lparr>document = [''hello world'', ''foo''], width = 5,
      wrap_offsets = [[5, 10]], offset_to_document_line = []\<rparr> = Inl IndexError"
  by code_simp

text \<open>
  C10. After construction and before any \<open>wrap()\<close> the table is empty, whatever the
  document holds, and for a document that is not empty the \<open>lines\<close> property fails with
  \<open>IndexError\<close>.
\<close>

theorem lines_before_wrap_fails:
  "wrap_offsets (init doc w) = []
   \<and> wrap_offsets (init_default doc) = []
   \<and> (doc \<noteq> [] \<longrightarrow> lines (init doc w) = Inl IndexError
                     \<and> lines (init_default doc) = Inl IndexError)"
  by (cases doc) (simp_all add: init_def init_default_def lines_def py_getitem_def)

theorem lines_before_wrap_fails_witness:
  "lines (init [''hello world'', ''foo''] 5) = Inl IndexError
   \<and> lines (init_default [''hello world'', ''foo'']) = Inl IndexError"
  using lines_before_wrap_fails [of "[''hello world'', ''foo'']" 5]
  by simp


end
